theory Spec2Isabelle
  imports Complex_Main
begin

section \<open>memegen: captions on images (\<open>memegen/domain/image.py\<close>)\<close>

text \<open>
  The module renders two captions onto a background picture.  Its functions are embedded
  here one by one, under the names they have in the source (without the leading
  underscore, which Isabelle does not allow).  A Python \<open>str\<close> is a \<open>string\<close>, one list
  element per character; a Python \<open>int\<close> is an \<open>int\<close>, list positions and lengths are
  \<open>nat\<close>; a tuple of phrases is a list of strings.
\<close>

subsection \<open>The libraries the module calls\<close>

text \<open>
  The module calls Pillow (\<open>Image.open\<close>, \<open>ImageFont.truetype\<close>, \<open>getsize\<close>, the drawing
  calls), \<open>hashlib\<close>, \<open>os\<close> and Python's float arithmetic.  None of them is code of the
  module, so each is a parameter of the model: a record of functions that the embedded
  functions receive.  A library call that can raise returns a sum, \<open>Inl\<close> the exception.
\<close>

datatype error = OSError string | ValueError string | AttributeError string | TypeError string

text \<open>
  A font object is what \<open>ImageFont.truetype(font, size)\<close> returns: the font file at one
  size.
\<close>

type_synonym fontobj = "string \<times> int"

text \<open>
  Python's numbers as the module uses them for positions: an \<open>int\<close>, or a float of a type
  \<open>'fl\<close> whose operations are parameters.  \<open>truediv a b\<close> is \<open>a / b\<close> for two ints, \<open>trunc\<close>
  is \<open>int(x)\<close>, and an int meeting a float in \<open>+\<close>, \<open>-\<close> or \<open>*\<close> is converted by
  \<open>float_of_int\<close> first.
\<close>

datatype 'fl number = Integer int | Floating 'fl

record 'fl arith =
  float_of_int :: "int \<Rightarrow> 'fl"
  truediv :: "int \<Rightarrow> int \<Rightarrow> 'fl"
  trunc :: "'fl \<Rightarrow> int"
  fadd :: "'fl \<Rightarrow> 'fl \<Rightarrow> 'fl"
  fsub :: "'fl \<Rightarrow> 'fl \<Rightarrow> 'fl"
  fmul :: "'fl \<Rightarrow> 'fl \<Rightarrow> 'fl"

text \<open>\<open>n + k\<close> for a number \<open>n\<close> and an int \<open>k\<close>.\<close>

fun add_int :: "'fl arith \<Rightarrow> 'fl number \<Rightarrow> int \<Rightarrow> 'fl number" where
  "add_int A (Integer a) k = Integer (a + k)"
| "add_int A (Floating x) k = Floating (fadd A x (float_of_int A k))"

text \<open>
  One call of \<open>draw.multiline_text(pos, text, fill, font=font, align=align)\<close>.  The
  \<open>ImageDraw\<close> object of an image is the list of the calls made through it, oldest
  first: drawing mutates the image, here it returns the list with the call appended.
\<close>

datatype 'fl draw = MultilineText "'fl number \<times> 'fl number" string "int \<times> int \<times> int" fontobj string

definition multiline_text ::
  "'fl number \<times> 'fl number \<Rightarrow> string \<Rightarrow> int \<times> int \<times> int \<Rightarrow> fontobj \<Rightarrow> string
     \<Rightarrow> 'fl draw list \<Rightarrow> 'fl draw list" where
  "multiline_text pos text fill font align draw_image =
     draw_image @ [MultilineText pos text fill font align]"

text \<open>
  A Pillow image as the module reads it: its mode, its format and its size (width,
  height).
\<close>

record raster =
  img_mode :: string
  img_format :: string
  img_size :: "int \<times> int"

text \<open>
  Pillow: \<open>ImageFont.truetype(font, size)\<close>, \<open>fontobj.getsize(text)\<close>,
  \<open>draw.multiline_textsize(text, font)\<close>, \<open>Image.open(path)\<close>, \<open>image.convert(mode)\<close> and
  \<open>image.thumbnail(max_dimensions)\<close>.  Opening a file and loading a font can raise;
  converting and resizing can raise too (they read the pixel data, which a damaged file
  does not deliver, and \<open>thumbnail\<close> raises \<open>ValueError\<close> for a bound that is not
  positive).  Measuring a text with a font that has loaded returns, and so does a
  drawing call.
\<close>

record pil =
  truetype :: "string \<Rightarrow> int \<Rightarrow> error + fontobj"
  getsize :: "fontobj \<Rightarrow> string \<Rightarrow> int \<times> int"
  multiline_textsize :: "string \<Rightarrow> fontobj \<Rightarrow> int \<times> int"
  image_open :: "string \<Rightarrow> error + raster"
  convert :: "string \<Rightarrow> raster \<Rightarrow> error + raster"
  thumbnail :: "int \<times> int \<Rightarrow> raster \<Rightarrow> error + raster"

text \<open>
  \<open>hashlib\<close> and \<open>str.encode\<close>: the UTF-8 bytes of a string, and the MD5 hex digest of a
  byte string.  An MD5 object holds the bytes it was fed; \<open>update\<close> appends to them and
  \<open>hexdigest\<close> digests them all.
\<close>

record hashlib =
  encode_utf8 :: "string \<Rightarrow> string"
  md5_hexdigest :: "string \<Rightarrow> string"

text \<open>
  \<open>os\<close> over a file system of a type \<open>'fs\<close>: \<open>os.path.join\<close>, \<open>os.path.dirname\<close>,
  \<open>os.path.isdir\<close>, \<open>os.makedirs\<close>, and the write of \<open>data.save(path, format=...)\<close>, which
  receives the image with the calls drawn on it.  The two calls that write return the file
  system they leave behind, with the exception if they raised.
\<close>

record ('fl, 'fs) os =
  path_join :: "string \<Rightarrow> string list \<Rightarrow> string"
  dirname :: "string \<Rightarrow> string"
  isdir :: "'fs \<Rightarrow> string \<Rightarrow> bool"
  makedirs :: "string \<Rightarrow> 'fs \<Rightarrow> error option \<times> 'fs"
  image_save :: "string \<Rightarrow> string \<Rightarrow> raster \<times> 'fl draw list \<Rightarrow> 'fs \<Rightarrow> error option \<times> 'fs"

subsection \<open>\<open>_split\<close>: one line or two\<close>

text \<open>
  \<^verbatim>\<open>space_indices = [i for i in range(len(text)) if text[i] == ' ']\<close>
\<close>

definition space_indices :: "string \<Rightarrow> nat list" where
  "space_indices text = filter (\<lambda>i. text ! i = CHR '' '') [0..<length text]"

text \<open>
  \<^verbatim>\<open>space_proximities = [abs(i - len(text) // 2) for i in space_indices]\<close>
\<close>

definition proximity :: "string \<Rightarrow> nat \<Rightarrow> int" where
  "proximity text i = \<bar>int i - int (length text) div 2\<bar>"

definition space_proximities :: "string \<Rightarrow> nat list \<Rightarrow> int list" where
  "space_proximities text indices = map (proximity text) indices"

text \<open>
  The \<open>for i, j in zip(space_proximities, space_indices)\<close> loop with its \<open>break\<close>: the
  first pair whose proximity is \<open>min(space_proximities)\<close> decides the result; when the
  pairs run out the result is what it was.  The minimum is taken of a list that holds the
  current \<open>i\<close>, so Python's \<open>min\<close> never sees an empty list here.
\<close>

fun split_scan :: "string \<Rightarrow> int list \<Rightarrow> (int \<times> nat) list \<Rightarrow> string list \<Rightarrow> string list" where
  "split_scan text proximities [] result = result"
| "split_scan text proximities ((i, j) # rest) result =
     (if i = min_list proximities then [take j text, drop (j + 1) text]
      else split_scan text proximities rest result)"

text \<open>
  \<open>_split(text)\<close>.  The slice \<open>text[1:-1]\<close> of a string of length at least 3 is
  \<open>drop 1 (take (length text - 1) text)\<close>; \<open>text[:j]\<close> is \<open>take j text\<close> and
  \<open>text[j + 1:]\<close> is \<open>drop (j + 1) text\<close>.
\<close>

definition split_text :: "string \<Rightarrow> string list" where
  "split_text text =
     (let result = [text] in
      if 3 \<le> length text \<and> CHR '' '' \<in> set (drop 1 (take (length text - 1) text)) then
        (let indices = space_indices text;
             proximities = space_proximities text indices
         in split_scan text proximities (zip proximities indices) result)
      else result)"

text \<open>
  The words of the specification, for comparison with the slice test of the code: a space
  strictly between the first and the last character.
\<close>

definition interior_space :: "string \<Rightarrow> bool" where
  "interior_space text = (\<exists>k \<in> set [1..<length text - 1]. text ! k = CHR '' '')"

subsection \<open>\<open>_maximize_font_size\<close> and \<open>_optimize_font_size\<close>\<close>

text \<open>
  The \<open>while\<close> loop of \<open>_maximize_font_size\<close>, entered with the current \<open>font_size\<close>: the
  font is loaded at that size and the text measured; while the width \<open>text_size[0]\<close> exceeds
  \<open>max_size\<close> and \<open>font_size > 1\<close> the size goes down by one.  The loop ends because the
  size decreases and stops at 1.
\<close>

function maximize_loop :: "pil \<Rightarrow> string \<Rightarrow> string \<Rightarrow> int \<Rightarrow> int \<Rightarrow> error + int" where
  "maximize_loop P font text max_size font_size =
     (case truetype P font font_size of
        Inl e \<Rightarrow> Inl e
      | Inr fontobj \<Rightarrow>
          (let text_size = getsize P fontobj text in
           if fst text_size > max_size \<and> font_size > 1
           then maximize_loop P font text max_size (font_size - 1)
           else Inr font_size))"
  by pat_completeness auto
termination
  by (relation "measure (\<lambda>(P, font, text, max_size, font_size). nat font_size)") auto

text \<open>
  \<open>_maximize_font_size(font, text, max_size)\<close>: the one parameter \<open>max_size\<close> is both the
  size the search starts from and the width the text has to fit.
\<close>

definition maximize_font_size :: "pil \<Rightarrow> string \<Rightarrow> string \<Rightarrow> int \<Rightarrow> error + int" where
  "maximize_font_size P font text max_size = maximize_loop P font text max_size max_size"

text \<open>The \<open>for phrase in phrases\<close> loop of \<open>_optimize_font_size\<close>.\<close>

fun optimize_loop :: "pil \<Rightarrow> string \<Rightarrow> int \<Rightarrow> string list \<Rightarrow> int \<Rightarrow> error + int" where
  "optimize_loop P font max_text_len [] font_size = Inr font_size"
| "optimize_loop P font max_text_len (phrase # phrases) font_size =
     (case maximize_font_size P font phrase max_text_len of
        Inl e \<Rightarrow> Inl e
      | Inr m \<Rightarrow> optimize_loop P font max_text_len phrases (min m font_size))"

text \<open>\<open>sep.join(phrases)\<close>.\<close>

fun join :: "string \<Rightarrow> string list \<Rightarrow> string" where
  "join sep [] = []"
| "join sep [phrase] = phrase"
| "join sep (phrase # phrases) = phrase @ sep @ join sep phrases"

text \<open>
  \<open>_optimize_font_size(font, text, max_font_size, min_font_size, max_text_len)\<close>.  The
  phrases are one or two, so \<open>len(phrases)\<close> is never 0 in the division.
\<close>

definition optimize_font_size ::
  "pil \<Rightarrow> string \<Rightarrow> string \<Rightarrow> int \<Rightarrow> int \<Rightarrow> int \<Rightarrow> error + (int \<times> string)" where
  "optimize_font_size P font text max_font_size min_font_size max_text_len =
     (case truetype P font min_font_size of
        Inl e \<Rightarrow> Inl e
      | Inr fontobj \<Rightarrow>
          (let text_size = getsize P fontobj text;
               phrases = (if fst text_size > max_text_len then split_text text else [text]);
               font_size = max_font_size div int (length phrases)
           in case optimize_loop P font max_text_len phrases font_size of
                Inl e \<Rightarrow> Inl e
              | Inr font_size \<Rightarrow> Inr (font_size, join [CHR 0x0A] phrases)))"

subsection \<open>\<open>_draw_outlined_text\<close>\<close>

text \<open>
  \<open>_draw_outlined_text(draw_image, text_position, text, font, font_size)\<close>: the two nested
  \<open>for\<close> loops over \<open>range(-outline_range, outline_range + 1)\<close>, which is the list
  \<open>[- outline_range .. outline_range]\<close>, draw in black \<open>(0, 0, 0)\<close>; the last call draws in
  white \<open>(255, 255, 255)\<close>.
\<close>

definition draw_outlined_text ::
  "'fl arith \<Rightarrow> 'fl draw list \<Rightarrow> 'fl number \<times> 'fl number \<Rightarrow> string \<Rightarrow> fontobj \<Rightarrow> int
     \<Rightarrow> 'fl draw list" where
  "draw_outlined_text A draw_image text_position text font font_size =
     (let outline_range = max 1 (font_size div 25);
          draw_image =
            fold (\<lambda>x. fold (\<lambda>y.
                    multiline_text (add_int A (fst text_position) x, add_int A (snd text_position) y)
                      text (0, 0, 0) font ''center'')
                  [- outline_range .. outline_range])
              [- outline_range .. outline_range] draw_image
      in multiline_text text_position text (255, 255, 255) font ''center'' draw_image)"

text \<open>The fill colour of a drawing call.\<close>

fun draw_fill :: "'fl draw \<Rightarrow> int \<times> int \<times> int" where
  "draw_fill (MultilineText pos text fill font align) = fill"

subsection \<open>The class \<open>Image\<close>: path, hash and save\<close>

text \<open>
  The objects an \<open>Image\<close> holds.  Their classes are not in this module, so what the module
  reads of them is a field: \<open>template.key\<close> and \<open>template.get_path(style)\<close>; \<open>text.top\<close>,
  \<open>text.bottom\<close> and \<open>text.path\<close>; \<open>font.path\<close>, and for a font object also the string
  \<open>str(font)\<close> and its truth value \<open>bool(font)\<close>.
\<close>

record template =
  key :: string
  get_path :: "string option \<Rightarrow> string"

record caption =
  text_top :: string
  text_bottom :: string
  text_path :: string

record font =
  font_path :: string
  font_str :: string
  font_bool :: bool

text \<open>
  The attributes that \<open>__init__\<close> sets, \<open>self.root\<close> to \<open>self.height\<close>; an attribute that is
  \<open>None\<close> is \<open>None\<close>.
\<close>

record image =
  image_root :: "string option"
  image_template :: template
  image_style :: "string option"
  image_text :: caption
  image_font :: "font option"
  image_width :: "int option"
  image_height :: "int option"


text \<open>
  The values that \<open>hash\<close> and the test in \<open>path\<close> meet, with Python's truth value and
  \<open>str\<close>: \<open>None\<close>, the empty string and 0 are false; \<open>str\<close> of an int is its decimal
  numeral.
\<close>

datatype pyvalue = NoneV | StrV string | IntV int | FontV font

fun digits :: "nat \<Rightarrow> string" where
  "digits n = (if n < 10 then [char_of (48 + n)] else digits (n div 10) @ [char_of (48 + n mod 10)])"

definition str_int :: "int \<Rightarrow> string" where
  "str_int i = (if i < 0 then CHR ''-'' # digits (nat (- i)) else digits (nat i))"

text \<open>The number that a decimal numeral without a sign denotes.\<close>

definition undigits :: "string \<Rightarrow> nat" where
  "undigits cs = foldl (\<lambda>a c. 10 * a + (of_char c - 48)) 0 cs"

fun truthy :: "pyvalue \<Rightarrow> bool" where
  "truthy NoneV = False"
| "truthy (StrV s) = (s \<noteq> [])"
| "truthy (IntV i) = (i \<noteq> 0)"
| "truthy (FontV f) = font_bool f"

fun str :: "pyvalue \<Rightarrow> string" where
  "str NoneV = ''None''"
| "str (StrV s) = s"
| "str (IntV i) = str_int i"
| "str (FontV f) = font_str f"

text \<open>\<open>a or b\<close>.\<close>

definition por :: "pyvalue \<Rightarrow> pyvalue \<Rightarrow> pyvalue" where
  "por a b = (if truthy a then a else b)"

text \<open>An attribute that is \<open>None\<close> or holds a value, as a Python value.\<close>

fun attr :: "('a \<Rightarrow> pyvalue) \<Rightarrow> 'a option \<Rightarrow> pyvalue" where
  "attr f None = NoneV"
| "attr f (Some x) = f x"

text \<open>
  The static method \<open>Image.hash\<close> of any number of values.  \<open>contribution\<close> is the argument
  of \<open>sha.update\<close> for one value, \<open>str(value or "").encode('utf-8')\<close>, and \<open>hash_input\<close> is
  the \<open>for\<close> loop: the bytes the MD5 object has been fed when the loop ends.
\<close>

definition contribution :: "hashlib \<Rightarrow> pyvalue \<Rightarrow> string" where
  "contribution H v = encode_utf8 H (str (por v (StrV '''')))"

definition hash_input :: "hashlib \<Rightarrow> pyvalue list \<Rightarrow> string" where
  "hash_input H values = fold (\<lambda>v sha. sha @ contribution H v) values []"

definition hash :: "hashlib \<Rightarrow> pyvalue list \<Rightarrow> string" where
  "hash H values = md5_hexdigest H (hash_input H values)"

text \<open>The property \<open>Image.path\<close>; \<open>not self.root\<close> holds for \<open>None\<close> and for the empty string.\<close>

definition path :: "('fl, 'fs) os \<Rightarrow> hashlib \<Rightarrow> image \<Rightarrow> string option" where
  "path S H self =
     (if \<not> truthy (attr StrV (image_root self)) then None
      else
        (let base = path_join S (the (image_root self)) [key (image_template self), text_path (image_text self)] in
         if truthy (attr StrV (image_style self)) \<or> truthy (attr FontV (image_font self))
            \<or> truthy (attr IntV (image_width self)) \<or> truthy (attr IntV (image_height self))
         then
           (let slug = hash H [attr StrV (image_style self), attr FontV (image_font self),
                               attr IntV (image_width self), attr IntV (image_height self)]
            in Some (base @ ''#'' @ slug @ ''.img''))
         else Some (base @ ''.img'')))"


subsection \<open>\<open>_generate\<close> and \<open>Image.save\<close>\<close>

text \<open>
  \<open>a or b\<close> where \<open>a\<close> is an int or \<open>None\<close> and \<open>b\<close> an int.
\<close>

definition int_or :: "int option \<Rightarrow> int \<Rightarrow> int" where
  "int_or a b = (case a of None \<Rightarrow> b | Some n \<Rightarrow> if n \<noteq> 0 then n else b)"

text \<open>
  \<open>_generate(top, bottom, font, background, width, height)\<close>.  The result is a pair: what
  the function returns, \<open>Inr\<close> the image or \<open>Inl\<close> the exception that ended it, and the calls
  made through the \<open>ImageDraw\<close> object \<open>draw\<close> when it ends.  Until \<open>draw\<close> is made
  (\<open>ImageDraw.Draw(image)\<close>, after the resize) there is no such call; from then on the list
  is the variable \<open>draw\<close>, and an exception leaves it as it is at that point.  Each library
  call that can raise (\<open>Image.open\<close>, \<open>convert\<close>, \<open>thumbnail\<close> and the
  \<open>ImageFont.truetype\<close> calls, those of \<open>_optimize_font_size\<close> included) ends the function
  with its error.  The two logging calls are left out.  \<open>int(image_size[1] / 5)\<close> is
  \<open>trunc (truediv (snd image_size) 5)\<close>; the positions are built from ints by Python's float
  operations, and \<open>top_text_position_y\<close> is the int 0.  The variable \<open>image\<close> is \<open>img\<close>.
\<close>

definition generate ::
  "pil \<Rightarrow> 'fl arith \<Rightarrow> string \<Rightarrow> string \<Rightarrow> string \<Rightarrow> string \<Rightarrow> int option \<Rightarrow> int option
     \<Rightarrow> (error + raster) \<times> 'fl draw list" where
  "generate P A top_text bottom_text font background width height =
     (case image_open P background of
        Inl e \<Rightarrow> (Inl e, [])
      | Inr img \<Rightarrow>
     (case (if img_mode img \<noteq> ''RGB'' \<and> img_mode img \<noteq> ''RGBA'' then
              (if img_format img = ''JPEG''
               then (case convert P ''RGB'' img of
                       Inl e \<Rightarrow> Inl e
                     | Inr converted \<Rightarrow> Inr (converted\<lparr>img_format := ''JPEG''\<rparr>))
               else (case convert P ''RGBA'' img of
                       Inl e \<Rightarrow> Inl e
                     | Inr converted \<Rightarrow> Inr (converted\<lparr>img_format := ''PNG''\<rparr>)))
            else Inr img) of
        Inl e \<Rightarrow> (Inl e, [])
      | Inr img \<Rightarrow>
     (let max_dimensions =
            (if truthy (attr IntV width) \<or> truthy (attr IntV height)
             then (int_or width 2000, int_or height 2000)
             else (400, 400))
      in
      case thumbnail P max_dimensions img of
        Inl e \<Rightarrow> (Inl e, [])
      | Inr img \<Rightarrow>
     (let image_size = img_size img;
          draw = [];
          max_font_size = trunc A (truediv A (snd image_size) 5);
          min_font_size_single_line = trunc A (truediv A (snd image_size) 12);
          max_text_len = fst image_size - 20
      in
      case optimize_font_size P font top_text max_font_size min_font_size_single_line
             max_text_len of
        Inl e \<Rightarrow> (Inl e, draw)
      | Inr (top_font_size, top_text) \<Rightarrow>
     (case optimize_font_size P font bottom_text max_font_size min_font_size_single_line
             max_text_len of
        Inl e \<Rightarrow> (Inl e, draw)
      | Inr (bottom_font_size, bottom_text) \<Rightarrow>
     (case truetype P font top_font_size of
        Inl e \<Rightarrow> (Inl e, draw)
      | Inr top_font \<Rightarrow>
     (case truetype P font bottom_font_size of
        Inl e \<Rightarrow> (Inl e, draw)
      | Inr bottom_font \<Rightarrow>
     (let top_text_size = multiline_textsize P top_text top_font;
          bottom_text_size = multiline_textsize P bottom_text bottom_font;
          top_text_position_x =
            Floating (fsub A (truediv A (fst image_size) 2) (truediv A (fst top_text_size) 2));
          top_text_position_y = Integer 0;
          top_text_position = (top_text_position_x, top_text_position_y);
          bottom_text_size_x =
            Floating (fsub A (truediv A (fst image_size) 2) (truediv A (fst bottom_text_size) 2));
          bottom_text_size_y =
            Floating (fsub A (float_of_int A (snd image_size))
                        (fmul A (float_of_int A (snd bottom_text_size)) (truediv A 7 6)));
          bottom_text_position = (bottom_text_size_x, bottom_text_size_y);
          draw = draw_outlined_text A draw top_text_position top_text top_font top_font_size;
          draw = draw_outlined_text A draw bottom_text_position bottom_text bottom_font
                   bottom_font_size
      in (Inr img, draw)))))))))"


subsection \<open>A library to run the model on\<close>

text \<open>
  The examples below run the model on a stand-in for Pillow: one font file,
  \<open>impact.ttf\<close>, that loads at every size from 1 up and whose glyphs are all half as wide
  as the font size (a line of \<open>n\<close> characters at size \<open>s\<close> is \<open>s * n div 2\<close> pixels wide and
  \<open>s\<close> high), and one background, \<open>iw.jpg\<close>, an RGB JPEG of 400 by 400 pixels.  A resize to a
  bound that is not positive raises \<open>ValueError\<close>.
\<close>




text \<open>
  Exact arithmetic on the reals, the arithmetic in which the specification states the
  positions; \<open>int(x)\<close> truncates towards zero.
\<close>

definition real_arith :: "real arith" where
  "real_arith =
     \<lparr> float_of_int = real_of_int, truediv = (\<lambda>a b. real_of_int a / real_of_int b),
       trunc = (\<lambda>x. if 0 \<le> x then \<lfloor>x\<rfloor> else \<lceil>x\<rceil>),
       fadd = (\<lambda>x y. x + y), fsub = (\<lambda>x y. x - y), fmul = (\<lambda>x y. x * y) \<rparr>"

definition demo_pil :: pil where
  "demo_pil =
     \<lparr> truetype = (\<lambda>font size.
          if font = ''impact.ttf'' \<and> 1 \<le> size then Inr (font, size)
          else Inl (OSError ''cannot open resource'')),
       getsize = (\<lambda>fontobj text. (snd fontobj * int (length text) div 2, snd fontobj)),
       multiline_textsize = (\<lambda>text fontobj.
          (snd fontobj * int (length text) div 2, snd fontobj)),
       image_open = (\<lambda>path.
          if path = ''iw.jpg''
          then Inr \<lparr> img_mode = ''RGB'', img_format = ''JPEG'', img_size = (400, 400) \<rparr>
          else Inl (OSError ''cannot identify image file'')),
       convert = (\<lambda>mode image. Inr (image\<lparr>img_mode := mode\<rparr>)),
       thumbnail = (\<lambda>max_dimensions image.
          if fst max_dimensions < 1 \<or> snd max_dimensions < 1
          then Inl (ValueError ''height and width must be > 0'')
          else Inr image) \<rparr>"

text \<open>
  A second font, \<open>pixel.ttf\<close>, for the smallest sizes: it loads at size 0 too, and a glyph
  is never narrower than one pixel (a line of \<open>n\<close> characters at size \<open>s\<close> is
  \<open>(s div 2 + 1) * n\<close> pixels wide).
\<close>

definition pixel_pil :: pil where
  "pixel_pil =
     demo_pil
       \<lparr> truetype := (\<lambda>font size.
            if font = ''pixel.ttf'' \<and> 0 \<le> size then Inr (font, size)
            else Inl (OSError ''cannot open resource'')),
         getsize := (\<lambda>fontobj text. ((snd fontobj div 2 + 1) * int (length text), snd fontobj)) \<rparr>"

text \<open>
  A stand-in for \<open>hashlib\<close> and \<open>os\<close>: the digest of a byte string is the string in
  brackets (so equal digests mean equal bytes), paths are joined with a slash as on POSIX
  (for components that do not start with one), and the file system is the list of its
  directories and the list of its files.
\<close>

definition demo_hashlib :: hashlib where
  "demo_hashlib =
     \<lparr> encode_utf8 = (\<lambda>s. s), md5_hexdigest = (\<lambda>bytes. ''<'' @ bytes @ ''>'') \<rparr>"








section \<open>Properties\<close>

subsection \<open>Splitting a caption\<close>

lemma interior_spaceD:
  assumes "interior_space text"
  shows "\<exists>k. 0 < k \<and> k + 1 < length text \<and> text ! k = CHR '' ''"
proof -
  from assms obtain k where "k \<in> set [1..<length text - 1]" "text ! k = CHR '' ''"
    unfolding interior_space_def by blast
  then have "0 < k \<and> k + 1 < length text \<and> text ! k = CHR '' ''" by auto
  then show ?thesis by blast
qed

lemma interior_slice:
  "CHR '' '' \<in> set (drop 1 (take (length text - 1) text)) \<longleftrightarrow> interior_space text"
proof
  assume "CHR '' '' \<in> set (drop 1 (take (length text - 1) text))"
  then obtain i where i: "i < length (drop 1 (take (length text - 1) text))"
    and c: "drop 1 (take (length text - 1) text) ! i = CHR '' ''"
    by (auto simp: in_set_conv_nth)
  from i have b: "i + 1 < length text - 1" by simp
  with c have "text ! (i + 1) = CHR '' ''" by simp
  with b show "interior_space text"
    unfolding interior_space_def by (intro bexI[of _ "i + 1"]) simp_all
next
  assume "interior_space text"
  then obtain k where k: "0 < k" "k + 1 < length text" "text ! k = CHR '' ''"
    by (auto dest: interior_spaceD)
  then have "k - 1 < length (drop 1 (take (length text - 1) text))" by simp
  moreover from k have "drop 1 (take (length text - 1) text) ! (k - 1) = CHR '' ''" by simp
  ultimately show "CHR '' '' \<in> set (drop 1 (take (length text - 1) text))"
    by (metis nth_mem)
qed

text \<open>The loop returns at the first index whose proximity is the minimum.\<close>

lemma split_scan_find:
  "split_scan text ps (zip (map d js) js) result =
     (case find (\<lambda>j. d j = min_list ps) js of
        None \<Rightarrow> result
      | Some j \<Rightarrow> [take j text, drop (j + 1) text])"
  by (induction js) auto

lemma set_space_indices:
  "set (space_indices text) = {i. i < length text \<and> text ! i = CHR '' ''}"
  by (auto simp: space_indices_def)

lemma sorted_space_indices: "sorted_wrt (<) (space_indices text)"
  unfolding space_indices_def by (intro sorted_wrt_filter) simp

lemma strict_sorted_before:
  assumes "sorted_wrt (<) xs" "i < length xs" "k \<in> set xs" "k < xs ! i"
  shows "\<exists>i'<i. xs ! i' = (k::nat)"
proof -
  from assms(3) obtain i' where i': "i' < length xs" "xs ! i' = k"
    by (auto simp: in_set_conv_nth)
  have "i' < i"
  proof (rule ccontr)
    assume "\<not> i' < i"
    then have "i = i' \<or> i < i'" by auto
    with assms(1,2) i' have "xs ! i \<le> xs ! i'"
      by (auto simp: sorted_wrt_iff_nth_less dest: less_imp_le)
    with assms(4) i' show False by simp
  qed
  with i' show ?thesis by blast
qed

lemma split_text_one:
  "\<not> (3 \<le> length text \<and> interior_space text) \<Longrightarrow> split_text text = [text]"
  unfolding split_text_def interior_slice by (auto simp: Let_def)

text \<open>
  With an interior space the cut is at a space \<open>j\<close> that is nearest to the midpoint, the
  leftmost of the nearest ones, and \<open>j\<close> is neither the first nor the last position: an
  interior space is strictly nearer to the midpoint than position 0, and at least as near
  as the last position, which comes after it in the scan.
\<close>

lemma split_text_two:
  assumes "3 \<le> length text" "interior_space text"
  shows "\<exists>j. 0 < j \<and> j + 1 < length text \<and> text ! j = CHR '' ''
           \<and> (\<forall>k<length text. text ! k = CHR '' '' \<longrightarrow> proximity text j \<le> proximity text k)
           \<and> (\<forall>k<j. text ! k = CHR '' '' \<longrightarrow> proximity text j < proximity text k)
           \<and> split_text text = [take j text, drop (j + 1) text]"
proof -
  let ?js = "space_indices text"
  let ?ps = "map (proximity text) ?js"
  let ?m = "min_list ?ps"
  from assms(2) obtain k0 where k0: "0 < k0" "k0 + 1 < length text" "text ! k0 = CHR '' ''"
    by (auto dest: interior_spaceD)
  then have k0_in: "k0 \<in> set ?js" by (simp add: set_space_indices)
  then have ne: "?ps \<noteq> []" by auto
  then have m: "?m = Min (set ?ps)" by (rule min_list_Min)
  then have "?m \<in> set ?ps" using ne by (metis Min_in List.finite_set set_empty)
  then obtain j0 where "j0 \<in> set ?js" "proximity text j0 = ?m" by auto
  then have "find (\<lambda>j. proximity text j = ?m) ?js \<noteq> None"
    by (auto simp: find_None_iff)
  then obtain j where f: "find (\<lambda>j. proximity text j = ?m) ?js = Some j" by blast
  then obtain i where i: "i < length ?js" "proximity text (?js ! i) = ?m" "j = ?js ! i"
    and first: "\<forall>i'<i. proximity text (?js ! i') \<noteq> ?m"
    unfolding find_Some_iff by blast
  from i have j_in: "j \<in> set ?js" by simp
  then have j: "j < length text" "text ! j = CHR '' ''" by (simp_all add: set_space_indices)
  have le: "proximity text j \<le> proximity text k" if "k < length text" "text ! k = CHR '' ''" for k
  proof -
    from that have "proximity text k \<in> set ?ps" by (simp add: set_space_indices)
    then have "?m \<le> proximity text k" unfolding m by simp
    with i show ?thesis by simp
  qed
  have lt: "proximity text j < proximity text k" if "k < j" "text ! k = CHR '' ''" for k
  proof -
    from that j have kin: "k \<in> set ?js" by (simp add: set_space_indices)
    with that i strict_sorted_before[OF sorted_space_indices, of i "text" k]
    obtain i' where "i' < i" "?js ! i' = k" by auto
    with first have "proximity text k \<noteq> ?m" by auto
    moreover from that j have "proximity text j \<le> proximity text k" by (intro le) simp_all
    ultimately show ?thesis using i by simp
  qed
  have "0 < j"
  proof (rule ccontr)
    assume "\<not> 0 < j"
    then have "j = 0" by simp
    with le[of k0] k0 show False by (simp add: proximity_def)
  qed
  moreover have "j + 1 < length text"
  proof (rule ccontr)
    assume "\<not> j + 1 < length text"
    with j have jl: "j = length text - 1" by simp
    with k0 have "k0 < j" by simp
    from lt[OF this k0(3)] jl k0 show False by (simp add: proximity_def)
  qed
  moreover have "split_text text = [take j text, drop (j + 1) text]"
    using assms f unfolding split_text_def interior_slice space_proximities_def
    by (simp add: Let_def split_scan_find)
  ultimately show ?thesis using j le lt by blast
qed

text \<open>
  Claim C1.  A text shorter than 3 characters, or with no space strictly between its first
  and its last character, comes back unchanged as the only line.  Every other text comes
  back as exactly two lines, cut at a space \<open>j\<close> whose distance \<open>|j - len(text) // 2|\<close> to the
  midpoint is the least among all spaces, and the leftmost space at that distance; the two
  lines are the characters before \<open>j\<close> and the characters after \<open>j\<close>, so the space itself
  is in neither.
\<close>

theorem split_text_spec:
  "(length text < 3 \<or> \<not> interior_space text \<longrightarrow> split_text text = [text]) \<and>
   (\<not> (length text < 3 \<or> \<not> interior_space text) \<longrightarrow>
      (\<exists>j<length text. text ! j = CHR '' ''
         \<and> (\<forall>k<length text. text ! k = CHR '' '' \<longrightarrow>
                \<bar>int j - int (length text div 2)\<bar> \<le> \<bar>int k - int (length text div 2)\<bar>)
         \<and> (\<forall>k<j. text ! k = CHR '' '' \<longrightarrow>
                \<bar>int j - int (length text div 2)\<bar> < \<bar>int k - int (length text div 2)\<bar>)
         \<and> split_text text = [take j text, drop (j + 1) text]))"
proof (intro conjI impI)
  assume "length text < 3 \<or> \<not> interior_space text"
  then have "\<not> (3 \<le> length text \<and> interior_space text)" by auto
  then show "split_text text = [text]" by (rule split_text_one)
next
  assume "\<not> (length text < 3 \<or> \<not> interior_space text)"
  then have "3 \<le> length text" "interior_space text" by auto
  from split_text_two[OF this] obtain j where
    "j + 1 < length text" "text ! j = CHR '' ''"
    "\<forall>k<length text. text ! k = CHR '' '' \<longrightarrow> proximity text j \<le> proximity text k"
    "\<forall>k<j. text ! k = CHR '' '' \<longrightarrow> proximity text j < proximity text k"
    "split_text text = [take j text, drop (j + 1) text]"
    by blast
  then show "\<exists>j<length text. text ! j = CHR '' ''
         \<and> (\<forall>k<length text. text ! k = CHR '' '' \<longrightarrow>
                \<bar>int j - int (length text div 2)\<bar> \<le> \<bar>int k - int (length text div 2)\<bar>)
         \<and> (\<forall>k<j. text ! k = CHR '' '' \<longrightarrow>
                \<bar>int j - int (length text div 2)\<bar> < \<bar>int k - int (length text div 2)\<bar>)
         \<and> split_text text = [take j text, drop (j + 1) text]"
    unfolding proximity_def by (intro exI[of _ j]) (simp add: zdiv_int)
qed

text \<open>
  The theorem at the docstring's examples.  The phrase of 35 characters has seven
  spaces, at 4, 7, 9, 16, 21, 25 and 28, and its midpoint is 17: the theorem's cut is no
  farther from 17 than the space at 16, so it is at 16, 17 or 18, and of these only 16 is a
  space.  The phrase with underscores has no space and stays whole.
\<close>

theorem split_text_spec_witness:
  "split_text ''This is a phrase that can be split.'' =
     [''This is a phrase'', ''that can be split.''] \<and>
   split_text ''This_is_a_phrase_that_can_not_be_split.'' =
     [''This_is_a_phrase_that_can_not_be_split.'']"
proof -
  let ?t = "''This is a phrase that can be split.''"
  have a: "\<not> (length ?t < 3 \<or> \<not> interior_space ?t)"
    by code_simp
  have b: "\<not> interior_space ''This_is_a_phrase_that_can_not_be_split.''"
    by code_simp
  have len: "length ?t = 35" by simp
  have at16: "?t ! 16 = CHR '' ''" and at17: "?t ! 17 \<noteq> CHR '' ''" and at18: "?t ! 18 \<noteq> CHR '' ''"
    by code_simp+
  from a split_text_spec[of ?t] obtain j where
    j: "j < length ?t" "?t ! j = CHR '' ''" and
    least: "\<forall>k<length ?t. ?t ! k = CHR '' '' \<longrightarrow>
             \<bar>int j - int (length ?t div 2)\<bar> \<le> \<bar>int k - int (length ?t div 2)\<bar>" and
    cut: "split_text ?t = [take j ?t, drop (j + 1) ?t]"
    by blast
  have "16 < length ?t" by simp
  from least[rule_format, OF this at16]
  have "\<bar>int j - int (length ?t div 2)\<bar> \<le> \<bar>int 16 - int (length ?t div 2)\<bar>" .
  then have "j = 16 \<or> j = 17 \<or> j = 18" unfolding len by (simp, arith)
  with j(2) at17 at18 have "j = 16" by auto
  with cut have "split_text ?t = [take 16 ?t, drop 17 ?t]" by simp
  then have "split_text ?t = [''This is a phrase'', ''that can be split.'']" by simp
  moreover from b split_text_spec[of "''This_is_a_phrase_that_can_not_be_split.''"]
  have "split_text ''This_is_a_phrase_that_can_not_be_split.'' =
     [''This_is_a_phrase_that_can_not_be_split.'']"
    by blast
  ultimately show ?thesis by blast
qed

text \<open>
  Claim C10.  Whenever \<open>_split\<close> returns two lines, both are non-empty, and the first line,
  one space and the second line make up the input again.  The cut is at one of the
  enumerated space positions, which include a leading and a trailing space, but it is
  never the first nor the last position of the text.
\<close>

theorem split_text_two_lines:
  assumes "split_text text = [line1, line2]"
  shows "line1 \<noteq> [] \<and> line2 \<noteq> [] \<and> line1 @ '' '' @ line2 = text \<and>
         set (space_indices text) = {i. i < length text \<and> text ! i = CHR '' ''} \<and>
         (\<exists>j. 0 < j \<and> j + 1 < length text \<and> j \<in> set (space_indices text) \<and>
              line1 = take j text \<and> line2 = drop (j + 1) text)"
proof -
  have "3 \<le> length text \<and> interior_space text"
  proof (rule ccontr)
    assume "\<not> (3 \<le> length text \<and> interior_space text)"
    then have "split_text text = [text]" by (rule split_text_one)
    with assms show False by simp
  qed
  then have "3 \<le> length text" "interior_space text" by simp_all
  from split_text_two[OF this] obtain j where j: "0 < j" "j + 1 < length text"
    "text ! j = CHR '' ''" "split_text text = [take j text, drop (j + 1) text]"
    by blast
  with assms have l: "line1 = take j text" "line2 = drop (j + 1) text" by simp_all
  from j have "take j text @ text ! j # drop (Suc j) text = text"
    by (intro id_take_nth_drop[symmetric]) simp
  with j l have "line1 @ '' '' @ line2 = text" by simp
  moreover from j l have "line1 \<noteq> []" "line2 \<noteq> []" by auto
  moreover from j have "j \<in> set (space_indices text)" by (simp add: set_space_indices)
  ultimately show ?thesis using j l set_space_indices by blast
qed

text \<open>
  The theorem at \<open>" a b "\<close>, whose first and last characters are spaces: the cut is at the
  middle space and both outer spaces stay in the lines.
\<close>

theorem split_text_two_lines_witness:
  "split_text '' a b '' = ['' a'', ''b ''] \<and>
   '' a'' \<noteq> [] \<and> ''b '' \<noteq> [] \<and> '' a'' @ '' '' @ ''b '' = '' a b '' \<and>
   (\<exists>j. 0 < j \<and> j + 1 < length '' a b '' \<and> j \<in> set (space_indices '' a b '') \<and>
        '' a'' = take j '' a b '' \<and> ''b '' = drop (j + 1) '' a b '')"
proof -
  have s: "split_text '' a b '' = ['' a'', ''b '']" by code_simp
  from split_text_two_lines[OF s] show ?thesis using s by blast
qed

subsection \<open>The largest font size that fits\<close>


text \<open>
  What the downward scan finds, for a start \<open>font_size\<close> of at least 1 and a font that
  loads as \<open>F s\<close> at every size \<open>s\<close> from 1 to the start: a size \<open>r\<close> between 1 and the start
  such that every size above \<open>r\<close> up to the start is too wide, and \<open>r\<close> fits or is 1.
\<close>

lemma maximize_loop_scan:
  assumes "\<forall>s. 1 \<le> s \<and> s \<le> font_size \<longrightarrow> truetype P font s = Inr (F s)"
    and "1 \<le> font_size"
  shows "\<exists>r. maximize_loop P font text max_size font_size = Inr r \<and> 1 \<le> r \<and> r \<le> font_size \<and>
           (fst (getsize P (F r) text) \<le> max_size \<or> r = 1) \<and>
           (\<forall>s. r < s \<and> s \<le> font_size \<longrightarrow> max_size < fst (getsize P (F s) text))"
  using assms
proof (induction P font "text" max_size font_size rule: maximize_loop.induct)
  case (1 P font t max_size font_size)
  from "1.prems" have f: "truetype P font font_size = Inr (F font_size)" by simp
  show ?case
  proof (cases "fst (getsize P (F font_size) t) > max_size \<and> font_size > 1")
    case True
    from "1.prems" True
    have "\<forall>s. 1 \<le> s \<and> s \<le> font_size - 1 \<longrightarrow> truetype P font s = Inr (F s)" "1 \<le> font_size - 1"
      by auto
    from "1.IH"[OF f refl True this] obtain r where r:
      "maximize_loop P font t max_size (font_size - 1) = Inr r" "1 \<le> r" "r \<le> font_size - 1"
      "fst (getsize P (F r) t) \<le> max_size \<or> r = 1"
      "\<forall>s. r < s \<and> s \<le> font_size - 1 \<longrightarrow> max_size < fst (getsize P (F s) t)"
      by blast
    have "maximize_loop P font t max_size font_size = Inr r"
      using f True r(1) by (subst maximize_loop.simps) simp
    moreover have "\<forall>s. r < s \<and> s \<le> font_size \<longrightarrow> max_size < fst (getsize P (F s) t)"
    proof (intro allI impI)
      fix s assume s: "r < s \<and> s \<le> font_size"
      show "max_size < fst (getsize P (F s) t)"
      proof (cases "s = font_size")
        case True
        with \<open>fst (getsize P (F font_size) t) > max_size \<and> font_size > 1\<close> show ?thesis by simp
      next
        case False
        with s have "r < s \<and> s \<le> font_size - 1" by simp
        with r(5) show ?thesis by blast
      qed
    qed
    ultimately show ?thesis using r by (intro exI[of _ r]) simp
  next
    case False
    then have "maximize_loop P font t max_size font_size = Inr font_size"
      using f by (subst maximize_loop.simps) auto
    moreover from False "1.prems" have "fst (getsize P (F font_size) t) \<le> max_size \<or> font_size = 1"
      by auto
    ultimately show ?thesis using "1.prems" by (intro exI[of _ font_size]) simp
  qed
qed

lemma maximize_font_size_small_ceiling:
  assumes "truetype P font max_size = Inr fontobj" and "max_size \<le> 1"
  shows "maximize_font_size P font text max_size = Inr max_size"
  using assms unfolding maximize_font_size_def by (subst maximize_loop.simps) simp

text \<open>
  Claim C3.  The claim is made for every ceiling: the largest size that fits, or 1.  The
  loop is guarded by \<open>font_size > 1\<close>, so a ceiling below 1 is returned as it is: a picture
  20 pixels wide has \<open>max_text_len = 0\<close>, and with the font \<open>pixel.ttf\<close>, whose width does
  not decrease as the size grows, the caption \<open>A\<close> is one pixel wide at size 0; the search
  returns 0, which does not fit and is not 1.
\<close>

theorem maximize_font_size_zero_ceiling:
  "mono (\<lambda>s. fst (getsize pixel_pil (''pixel.ttf'', s) ''A'')) \<and>
   maximize_font_size pixel_pil ''pixel.ttf'' ''A'' 0 = Inr 0 \<and>
   \<not> fst (getsize pixel_pil (''pixel.ttf'', 0) ''A'') \<le> 0 \<and>
   (0::int) \<noteq> 1"
proof -
  have "mono (\<lambda>s. fst (getsize pixel_pil (''pixel.ttf'', s) ''A''))"
    by (rule monoI) (simp add: pixel_pil_def zdiv_mono1)
  moreover have "maximize_font_size pixel_pil ''pixel.ttf'' ''A'' 0 = Inr 0"
    by code_simp
  moreover have "\<not> fst (getsize pixel_pil (''pixel.ttf'', 0) ''A'') \<le> 0"
    by (simp add: pixel_pil_def)
  ultimately show ?thesis by simp
qed

text \<open>
  What holds instead.  The font loads (as \<open>F s\<close>) at every size \<open>s\<close> from 1 to the ceiling
  \<open>max_size\<close>, and the measured width is assumed to be non-decreasing in the size.  For a
  ceiling of at least 1, \<open>_maximize_font_size\<close> returns a size \<open>r\<close> from 1 to the ceiling
  such that every size above \<open>r\<close> (up to the ceiling, where the scan starts) is too wide.
  If \<open>r\<close> fits, it is the largest size that fits, and all sizes below it fit too.  If it
  does not fit, then no size fits and \<open>r\<close> is 1, returned as a result, not as an error.
  For a ceiling of at most 1 at which the font loads, the loop is not entered and the
  ceiling itself is returned, whether it fits or not.
\<close>

theorem maximize_font_size_largest_fit:
  assumes load: "\<forall>s. 1 \<le> s \<and> s \<le> max_size \<longrightarrow> truetype P font s = Inr (F s)"
    and mono: "\<forall>s t. 1 \<le> s \<and> s \<le> t \<and> t \<le> max_size \<longrightarrow>
                 fst (getsize P (F s) text) \<le> fst (getsize P (F t) text)"
  shows "(1 \<le> max_size \<longrightarrow>
          (\<exists>r. maximize_font_size P font text max_size = Inr r \<and> 1 \<le> r \<and> r \<le> max_size \<and>
             (\<forall>s. r < s \<and> s \<le> max_size \<longrightarrow> max_size < fst (getsize P (F s) text)) \<and>
             (fst (getsize P (F r) text) \<le> max_size \<longrightarrow>
                (\<forall>s. 1 \<le> s \<and> s \<le> r \<longrightarrow> fst (getsize P (F s) text) \<le> max_size)) \<and>
             (\<not> fst (getsize P (F r) text) \<le> max_size \<longrightarrow>
                r = 1 \<and>
                (\<forall>s. 1 \<le> s \<and> s \<le> max_size \<longrightarrow> max_size < fst (getsize P (F s) text))))) \<and>
         (max_size \<le> 1 \<and> (\<exists>fontobj. truetype P font max_size = Inr fontobj) \<longrightarrow>
            maximize_font_size P font text max_size = Inr max_size)"
proof (intro conjI impI)
  assume ceiling: "1 \<le> max_size"
  from maximize_loop_scan[OF load ceiling, of "text" max_size] obtain r where r:
    "maximize_loop P font text max_size max_size = Inr r" "1 \<le> r" "r \<le> max_size"
    "fst (getsize P (F r) text) \<le> max_size \<or> r = 1"
    "\<forall>s. r < s \<and> s \<le> max_size \<longrightarrow> max_size < fst (getsize P (F s) text)"
    by blast
  have below: "\<forall>s. 1 \<le> s \<and> s \<le> r \<longrightarrow> fst (getsize P (F s) text) \<le> max_size"
    if "fst (getsize P (F r) text) \<le> max_size"
  proof (intro allI impI)
    fix s assume "1 \<le> s \<and> s \<le> r"
    with r(3) mono have "fst (getsize P (F s) text) \<le> fst (getsize P (F r) text)" by simp
    with that show "fst (getsize P (F s) text) \<le> max_size" by simp
  qed
  have none: "r = 1 \<and> (\<forall>s. 1 \<le> s \<and> s \<le> max_size \<longrightarrow> max_size < fst (getsize P (F s) text))"
    if "\<not> fst (getsize P (F r) text) \<le> max_size"
  proof -
    from that r(4) have r1: "r = 1" by simp
    have "max_size < fst (getsize P (F s) text)" if s: "1 \<le> s \<and> s \<le> max_size" for s
    proof -
      from s mono have "fst (getsize P (F 1) text) \<le> fst (getsize P (F s) text)" by simp
      with \<open>\<not> fst (getsize P (F r) text) \<le> max_size\<close> r1 show ?thesis by simp
    qed
    with r1 show ?thesis by simp
  qed
  from r below none
  show "\<exists>r. maximize_font_size P font text max_size = Inr r \<and> 1 \<le> r \<and> r \<le> max_size \<and>
             (\<forall>s. r < s \<and> s \<le> max_size \<longrightarrow> max_size < fst (getsize P (F s) text)) \<and>
             (fst (getsize P (F r) text) \<le> max_size \<longrightarrow>
                (\<forall>s. 1 \<le> s \<and> s \<le> r \<longrightarrow> fst (getsize P (F s) text) \<le> max_size)) \<and>
             (\<not> fst (getsize P (F r) text) \<le> max_size \<longrightarrow>
                r = 1 \<and>
                (\<forall>s. 1 \<le> s \<and> s \<le> max_size \<longrightarrow> max_size < fst (getsize P (F s) text)))"
    unfolding maximize_font_size_def by (intro exI[of _ r]) simp
next
  assume "max_size \<le> 1 \<and> (\<exists>fontobj. truetype P font max_size = Inr fontobj)"
  then show "maximize_font_size P font text max_size = Inr max_size"
    using maximize_font_size_small_ceiling by blast
qed

text \<open>
  The theorem at the first stand-in font, the text \<open>Hello, world!\<close> and a ceiling of 40:
  the search returns 6, where the line is 39 pixels wide; at 7 it is 45 pixels wide.  And
  at the font \<open>pixel.ttf\<close> and a ceiling of 0: the search returns 0.
\<close>

theorem maximize_font_size_largest_fit_witness:
  "maximize_font_size demo_pil ''impact.ttf'' ''Hello, world!'' 40 = Inr 6 \<and>
   (\<exists>r. maximize_font_size demo_pil ''impact.ttf'' ''Hello, world!'' 40 = Inr r \<and> 1 \<le> r \<and> r \<le> 40 \<and>
      (\<forall>s. r < s \<and> s \<le> 40 \<longrightarrow>
         40 < fst (getsize demo_pil (''impact.ttf'', s) ''Hello, world!'')) \<and>
      (fst (getsize demo_pil (''impact.ttf'', r) ''Hello, world!'') \<le> 40 \<longrightarrow>
         (\<forall>s. 1 \<le> s \<and> s \<le> r \<longrightarrow>
            fst (getsize demo_pil (''impact.ttf'', s) ''Hello, world!'') \<le> 40)) \<and>
      (\<not> fst (getsize demo_pil (''impact.ttf'', r) ''Hello, world!'') \<le> 40 \<longrightarrow>
         r = 1 \<and> (\<forall>s. 1 \<le> s \<and> s \<le> 40 \<longrightarrow>
            40 < fst (getsize demo_pil (''impact.ttf'', s) ''Hello, world!'')))) \<and>
   maximize_font_size pixel_pil ''pixel.ttf'' ''A'' 0 = Inr 0"
proof -
  let ?F = "\<lambda>s::int. (''impact.ttf'', s)"
  have load: "\<forall>s. 1 \<le> s \<and> s \<le> 40 \<longrightarrow> truetype demo_pil ''impact.ttf'' s = Inr (?F s)"
    by (simp add: demo_pil_def)
  have mono: "\<forall>s t. 1 \<le> s \<and> s \<le> t \<and> t \<le> 40 \<longrightarrow>
      fst (getsize demo_pil (?F s) ''Hello, world!'') \<le> fst (getsize demo_pil (?F t) ''Hello, world!'')"
    by (simp add: demo_pil_def zdiv_mono1)
  have ceiling: "(1::int) \<le> 40" by simp
  have r: "maximize_font_size demo_pil ''impact.ttf'' ''Hello, world!'' 40 = Inr 6"
    by code_simp
  let ?G = "\<lambda>s::int. (''pixel.ttf'', s)"
  have load0: "\<forall>s. 1 \<le> s \<and> s \<le> 0 \<longrightarrow> truetype pixel_pil ''pixel.ttf'' s = Inr (?G s)"
    by (simp add: pixel_pil_def)
  have mono0: "\<forall>s t. 1 \<le> s \<and> s \<le> t \<and> t \<le> 0 \<longrightarrow>
      fst (getsize pixel_pil (?G s) ''A'') \<le> fst (getsize pixel_pil (?G t) ''A'')"
    by (simp add: pixel_pil_def zdiv_mono1)
  have small: "(0::int) \<le> 1 \<and> (\<exists>fontobj. truetype pixel_pil ''pixel.ttf'' 0 = Inr fontobj)"
    by (simp add: pixel_pil_def)
  note big = maximize_font_size_largest_fit[OF load mono, THEN conjunct1, rule_format, OF ceiling]
  note zero = maximize_font_size_largest_fit[OF load0 mono0, THEN conjunct2, rule_format, OF small]
  show ?thesis
    by (intro conjI) (rule r, rule big, rule zero)
qed

text \<open>
  Claim C4.  The claim bounds the result of \<open>_maximize_font_size\<close> by \<open>max_font_size\<close>.  The
  function does not receive \<open>max_font_size\<close>: its ceiling is its own argument \<open>max_size\<close>,
  for which \<open>_optimize_font_size\<close> passes the pixel width \<open>max_text_len\<close>.  With the
  stand-in font, a 400 by 400 picture (\<open>max_text_len = 380\<close>, \<open>max_font_size = 80\<close>) and the
  caption \<open>A\<close>, the search returns 380.  Nor is the result always positive: for a picture
  20 pixels wide (\<open>max_text_len = 0\<close>) and a font that loads at size 0, it is 0.
\<close>

theorem maximize_font_size_above_max_font_size:
  "maximize_font_size demo_pil ''impact.ttf'' ''A'' 380 = Inr 380 \<and> \<not> (380::int) \<le> 80 \<and>
   maximize_font_size pixel_pil ''pixel.ttf'' ''A'' 0 = Inr 0 \<and> \<not> (1::int) \<le> 0"
  by code_simp

text \<open>
  What holds instead: for a ceiling \<open>max_size\<close> of at least 1 and a font that loads at every
  size from 1 to the ceiling, \<open>_maximize_font_size\<close> returns a size from 1 to \<open>max_size\<close>;
  for a ceiling of at most 1 at which the font loads, it returns the ceiling itself.
  The bound by \<open>max_font_size\<close> is that of \<open>_optimize_font_size\<close>, which takes the minimum
  with \<open>max_font_size // len(phrases)\<close>: the size it returns is at most
  \<open>max_font_size // len(phrases)\<close>, and so at most \<open>max_font_size\<close> when \<open>max_font_size\<close> is
  not negative.
\<close>

lemma optimize_loop_le:
  "optimize_loop P font max_text_len phrases font_size = Inr r \<Longrightarrow> r \<le> font_size"
proof (induction phrases arbitrary: font_size)
  case Nil
  then show ?case by simp
next
  case (Cons phrase phrases)
  then show ?case by (fastforce split: sum.splits)
qed

lemma length_split_text: "length (split_text text) = 1 \<or> length (split_text text) = 2"
proof (cases "3 \<le> length text \<and> interior_space text")
  case True
  then have "3 \<le> length text" "interior_space text" by simp_all
  from split_text_two[OF this] show ?thesis by auto
next
  case False
  then show ?thesis by (simp add: split_text_one)
qed

lemma optimize_font_size_le:
  assumes "optimize_font_size P font text max_font_size min_font_size max_text_len =
             Inr (font_size, lines)"
  shows "\<exists>fontobj. truetype P font min_font_size = Inr fontobj \<and>
           font_size \<le> max_font_size div
             int (length (if fst (getsize P fontobj text) > max_text_len then split_text text
                          else [text]))"
proof -
  from assms obtain fontobj where f: "truetype P font min_font_size = Inr fontobj"
    unfolding optimize_font_size_def by (auto split: sum.splits)
  define phrases where
    "phrases = (if fst (getsize P fontobj text) > max_text_len then split_text text else [text])"
  from assms have
    "(case optimize_loop P font max_text_len phrases (max_font_size div int (length phrases)) of
        Inl e \<Rightarrow> Inl e
      | Inr font_size \<Rightarrow> Inr (font_size, join [CHR 0x0A] phrases)) = Inr (font_size, lines)"
    unfolding optimize_font_size_def f Let_def phrases_def by simp
  then have
    "optimize_loop P font max_text_len phrases (max_font_size div int (length phrases)) =
       Inr font_size"
    by (simp split: sum.splits)
  then have "font_size \<le> max_font_size div int (length phrases)" by (rule optimize_loop_le)
  with f show ?thesis unfolding phrases_def by blast
qed

theorem font_size_bounds:
  "(1 \<le> max_size \<and> (\<forall>s. 1 \<le> s \<and> s \<le> max_size \<longrightarrow> (\<exists>fontobj. truetype P font s = Inr fontobj))
      \<longrightarrow> (\<exists>r. maximize_font_size P font text max_size = Inr r \<and> 1 \<le> r \<and> r \<le> max_size)) \<and>
   (max_size \<le> 1 \<and> (\<exists>fontobj. truetype P font max_size = Inr fontobj)
      \<longrightarrow> maximize_font_size P font text max_size = Inr max_size) \<and>
   (optimize_font_size P font text max_font_size min_font_size max_text_len = Inr (font_size, lines)
      \<longrightarrow> (\<exists>fontobj. truetype P font min_font_size = Inr fontobj \<and>
             font_size \<le> max_font_size div
               int (length (if fst (getsize P fontobj text) > max_text_len then split_text text
                            else [text]))) \<and>
          (0 \<le> max_font_size \<longrightarrow> font_size \<le> max_font_size))"
proof (intro conjI impI)
  assume a: "1 \<le> max_size \<and>
    (\<forall>s. 1 \<le> s \<and> s \<le> max_size \<longrightarrow> (\<exists>fontobj. truetype P font s = Inr fontobj))"
  then have "\<forall>s. \<exists>fontobj. 1 \<le> s \<and> s \<le> max_size \<longrightarrow> truetype P font s = Inr fontobj"
    by blast
  then obtain F where F: "\<forall>s. 1 \<le> s \<and> s \<le> max_size \<longrightarrow> truetype P font s = Inr (F s)"
    by metis
  from a have "1 \<le> max_size" by simp
  from maximize_loop_scan[OF F this, of "text" max_size]
  show "\<exists>r. maximize_font_size P font text max_size = Inr r \<and> 1 \<le> r \<and> r \<le> max_size"
    unfolding maximize_font_size_def by blast
next
  assume "max_size \<le> 1 \<and> (\<exists>fontobj. truetype P font max_size = Inr fontobj)"
  then show "maximize_font_size P font text max_size = Inr max_size"
    using maximize_font_size_small_ceiling by blast
next
  assume "optimize_font_size P font text max_font_size min_font_size max_text_len =
    Inr (font_size, lines)"
  then show "\<exists>fontobj. truetype P font min_font_size = Inr fontobj \<and>
             font_size \<le> max_font_size div
               int (length (if fst (getsize P fontobj text) > max_text_len then split_text text
                            else [text]))"
    by (rule optimize_font_size_le)
next
  assume b: "optimize_font_size P font text max_font_size min_font_size max_text_len =
    Inr (font_size, lines)" and nonneg: "0 \<le> max_font_size"
  from optimize_font_size_le[OF b] obtain fontobj where
    le: "font_size \<le> max_font_size div
           int (length (if fst (getsize P fontobj text) > max_text_len then split_text text
                        else [text]))"
    by blast
  define n where
    "n = int (length (if fst (getsize P fontobj text) > max_text_len then split_text text
                      else [text]))"
  have "1 \<le> n" unfolding n_def using length_split_text[of "text"] by auto
  with nonneg have "max_font_size div n \<le> max_font_size div 1"
    by (intro zdiv_mono2) auto
  with le show "font_size \<le> max_font_size" unfolding n_def by simp
qed

text \<open>
  The theorem at the stand-in font: the search under a ceiling of 40 stays within 1 and
  40, and a layout of a caption that is split, under \<open>max_font_size = 30\<close>, chooses 10, which
  is at most \<open>30 // 2\<close> and at most 30; the search under a ceiling of 0 returns 0.
\<close>

theorem font_size_bounds_witness:
  "(\<exists>r. maximize_font_size demo_pil ''impact.ttf'' ''This is a phrase that can be split.'' 40 = Inr r \<and>
        1 \<le> r \<and> r \<le> 40) \<and>
   optimize_font_size demo_pil ''impact.ttf'' ''This is a phrase that can be split.'' 30 8 90 =
     Inr (10, ''This is a phrase'' @ [CHR 0x0A] @ ''that can be split.'') \<and>
   (\<exists>fontobj. truetype demo_pil ''impact.ttf'' 8 = Inr fontobj \<and>
      10 \<le> 30 div
        int (length (if fst (getsize demo_pil fontobj ''This is a phrase that can be split.'') > 90
                     then split_text ''This is a phrase that can be split.''
                     else [''This is a phrase that can be split.'']))) \<and>
   (10::int) \<le> 30 div 2 \<and> (10::int) \<le> 30 \<and>
   maximize_font_size pixel_pil ''pixel.ttf'' ''A'' 0 = Inr 0"
proof -
  have load: "(1::int) \<le> 40 \<and>
      (\<forall>s. 1 \<le> s \<and> s \<le> 40 \<longrightarrow> (\<exists>fontobj. truetype demo_pil ''impact.ttf'' s = Inr fontobj))"
    by (simp add: demo_pil_def)
  have run: "optimize_font_size demo_pil ''impact.ttf'' ''This is a phrase that can be split.'' 30 8 90 =
     Inr (10, ''This is a phrase'' @ [CHR 0x0A] @ ''that can be split.'')"
    by code_simp
  have nonneg: "(0::int) \<le> 30" by simp
  note b = font_size_bounds[of 40 demo_pil "''impact.ttf''"
      "''This is a phrase that can be split.''" 30 8 90 10
      "''This is a phrase'' @ [CHR 0x0A] @ ''that can be split.''"]
  note b1 = b[THEN conjunct1, rule_format, OF load]
  note b2 = b[THEN conjunct2, THEN conjunct2, rule_format, OF run]
  have small: "(0::int) \<le> 1 \<and> (\<exists>fontobj. truetype pixel_pil ''pixel.ttf'' 0 = Inr fontobj)"
    by (simp add: pixel_pil_def)
  note b3 = font_size_bounds[of 0 pixel_pil "''pixel.ttf''" "''A''",
      THEN conjunct2, THEN conjunct1, rule_format, OF small]
  from b2[THEN conjunct2] nonneg have "(10::int) \<le> 30" by simp
  with b1 b2[THEN conjunct1] run b3 show ?thesis by (intro conjI) simp_all
qed

subsection \<open>Laying out a caption\<close>





subsection \<open>The outline\<close>

text \<open>A loop of drawing calls appends its calls, in the order of the loop.\<close>

lemma fold_multiline_text:
  "fold (\<lambda>y. multiline_text (pos y) text fill font align) ys draw_image =
     draw_image @ map (\<lambda>y. MultilineText (pos y) text fill font align) ys"
  by (induction ys arbitrary: draw_image) (simp_all add: multiline_text_def)

lemma fold_fold_multiline_text:
  "fold (\<lambda>x. fold (\<lambda>y. multiline_text (pos x y) text fill font align) ys) xs draw_image =
     draw_image @
     map (\<lambda>(x, y). MultilineText (pos x y) text fill font align) (List.product xs ys)"
  by (induction xs arbitrary: draw_image) (simp_all add: fold_multiline_text)

lemma draw_outlined_text_list:
  "draw_outlined_text A draw_image text_position text font font_size =
     draw_image @
     map (\<lambda>(dx, dy). MultilineText
            (add_int A (fst text_position) dx, add_int A (snd text_position) dy)
            text (0, 0, 0) font ''center'')
       (List.product [- max 1 (font_size div 25) .. max 1 (font_size div 25)]
                     [- max 1 (font_size div 25) .. max 1 (font_size div 25)]) @
     [MultilineText text_position text (255, 255, 255) font ''center'']"
  unfolding draw_outlined_text_def Let_def fold_fold_multiline_text
  by (simp add: multiline_text_def)

lemma add_int_case:
  "add_int A n k =
     (case n of Integer a \<Rightarrow> Integer (a + k)
              | Floating v \<Rightarrow> Floating (fadd A v (float_of_int A k)))"
  by (cases n) simp_all

text \<open>
  Claim C6.  With the thickness \<open>t = max(1, font_size // 25)\<close>, the procedure appends to
  the calls already made: one black call for every pair of offsets \<open>(dx, dy)\<close> with \<open>dx\<close>
  and \<open>dy\<close> from \<open>-t\<close> to \<open>t\<close>, each pair once, which are \<open>(2t + 1)\<^sup>2\<close> calls, 9 of them when
  \<open>t = 1\<close>; then one white call at \<open>(x, y)\<close>.  The black call for \<open>(dx, dy)\<close> is at
  \<open>(x + dx, y + dy)\<close>, where the sum of a coordinate and an offset is Python's: the int
  \<open>a + dx\<close> for an int \<open>a\<close>, and the float sum of \<open>v\<close> and the float of \<open>dx\<close> for a float \<open>v\<close>.
  Every call draws the same caption with the same font, centred, whatever the caption
  is.
\<close>

theorem draw_outlined_text_calls:
  fixes A :: "'fl arith" and x y :: "'fl number" and font_size :: int
  defines "t \<equiv> max 1 (font_size div 25)"
  defines "offsets \<equiv> List.product [- t .. t] [- t .. t]"
  defines "shifted \<equiv> \<lambda>n k. (case n of Integer a \<Rightarrow> Integer (a + k)
                                   | Floating v \<Rightarrow> Floating (fadd A v (float_of_int A k)))"
  shows "draw_outlined_text A draw_image (x, y) text font font_size =
           draw_image @
           map (\<lambda>(dx, dy). MultilineText (shifted x dx, shifted y dy) text (0, 0, 0) font ''center'')
             offsets @
           [MultilineText (x, y) text (255, 255, 255) font ''center''] \<and>
         distinct offsets \<and> set offsets = {- t .. t} \<times> {- t .. t} \<and>
         int (length offsets) = (2 * t + 1)\<^sup>2 \<and>
         (t = 1 \<longrightarrow> length offsets = 9)"
proof -
  have t: "1 \<le> t" unfolding t_def by simp
  have len: "int (length offsets) = (2 * t + 1)\<^sup>2"
    using t unfolding offsets_def by (simp add: power2_eq_square)
  have "draw_outlined_text A draw_image (x, y) text font font_size =
           draw_image @
           map (\<lambda>(dx, dy). MultilineText (shifted x dx, shifted y dy) text (0, 0, 0) font ''center'')
             offsets @
           [MultilineText (x, y) text (255, 255, 255) font ''center'']"
    unfolding draw_outlined_text_list shifted_def t_def offsets_def
    by (simp add: add_int_case)
  moreover have "distinct offsets" unfolding offsets_def by (simp add: distinct_product)
  moreover have "set offsets = {- t .. t} \<times> {- t .. t}" unfolding offsets_def by simp
  moreover have "t = 1 \<longrightarrow> length offsets = 9"
  proof
    assume "t = 1"
    with len have "int (length offsets) = 9" by simp
    then show "length offsets = 9" by simp
  qed
  ultimately show ?thesis using len by blast
qed

text \<open>
  The theorem in exact arithmetic, at the position \<open>(180.0, 0)\<close> and a font size of 20,
  where the thickness is 1: nine black calls, at \<open>x\<close> = 179, 180, 181 and \<open>y\<close> = -1, 0, 1,
  then the white one at \<open>(180.0, 0)\<close>.
\<close>

theorem draw_outlined_text_calls_witness:
  "draw_outlined_text real_arith [] (Floating 180, Integer 0) ''A'' (''impact.ttf'', 20) 20 =
     [MultilineText (Floating 179, Integer (- 1)) ''A'' (0, 0, 0) (''impact.ttf'', 20) ''center'',
      MultilineText (Floating 179, Integer 0) ''A'' (0, 0, 0) (''impact.ttf'', 20) ''center'',
      MultilineText (Floating 179, Integer 1) ''A'' (0, 0, 0) (''impact.ttf'', 20) ''center'',
      MultilineText (Floating 180, Integer (- 1)) ''A'' (0, 0, 0) (''impact.ttf'', 20) ''center'',
      MultilineText (Floating 180, Integer 0) ''A'' (0, 0, 0) (''impact.ttf'', 20) ''center'',
      MultilineText (Floating 180, Integer 1) ''A'' (0, 0, 0) (''impact.ttf'', 20) ''center'',
      MultilineText (Floating 181, Integer (- 1)) ''A'' (0, 0, 0) (''impact.ttf'', 20) ''center'',
      MultilineText (Floating 181, Integer 0) ''A'' (0, 0, 0) (''impact.ttf'', 20) ''center'',
      MultilineText (Floating 181, Integer 1) ''A'' (0, 0, 0) (''impact.ttf'', 20) ''center'',
      MultilineText (Floating 180, Integer 0) ''A'' (255, 255, 255) (''impact.ttf'', 20)
        ''center''] \<and>
   length (List.product [- 1 .. 1 :: int] [- 1 .. 1 :: int]) = 9"
proof -
  have t: "max 1 ((20::int) div 25) = 1" by simp
  have offsets: "List.product [- 1 .. 1 :: int] [- 1 .. 1 :: int] =
      [(- 1, - 1), (- 1, 0), (- 1, 1), (0, - 1), (0, 0), (0, 1), (1, - 1), (1, 0), (1, 1)]"
    by code_simp
  note c = draw_outlined_text_calls[of real_arith "[]" "Floating 180" "Integer 0" "''A''"
      "(''impact.ttf'', 20)" 20]
  from c[THEN conjunct1] c[THEN conjunct2, THEN conjunct2, THEN conjunct2, THEN conjunct2]
  show ?thesis unfolding t offsets by (simp add: real_arith_def)
qed

subsection \<open>Where the captions are drawn\<close>

lemma filter_white_draw_outlined_text:
  "filter (\<lambda>c. draw_fill c = (255, 255, 255))
     (draw_outlined_text A draw_image text_position text font font_size) =
   filter (\<lambda>c. draw_fill c = (255, 255, 255)) draw_image @
   [MultilineText text_position text (255, 255, 255) font ''center'']"
  unfolding draw_outlined_text_list by (simp add: filter_map comp_def case_prod_beta)

text \<open>
  Claim C5.  When \<open>_generate\<close> returns an image, of width \<open>W\<close> and height \<open>H\<close>, each caption
  has been laid out with the values computed from that size, and its font loaded at the
  size chosen.  The calls drawn are those of the outlined-text procedure for the top
  caption at \<open>(W / 2 - w / 2, 0)\<close>, with \<open>(w, h)\<close> the size of its text block at that font,
  followed by those for the bottom caption at \<open>(W / 2 - w / 2, H - h * (7 / 6))\<close>, with its
  own \<open>(w, h)\<close>; in particular the two white calls are at these two positions.  The
  divisions are true divisions, never floor divisions, and the operations are those of
  the arithmetic \<open>A\<close> that is given: in exact arithmetic on the reals these are the numbers
  above.
\<close>

theorem generate_positions:
  fixes A :: "'fl arith"
  assumes "generate P A top_text bottom_text font background width height = (Inr img, drawn)"
  defines "W \<equiv> fst (img_size img)" and "H \<equiv> snd (img_size img)"
  shows "\<exists>top_font_size top bottom_font_size bottom top_font bottom_font top_position
           bottom_position.
           optimize_font_size P font top_text (trunc A (truediv A H 5))
             (trunc A (truediv A H 12)) (W - 20) = Inr (top_font_size, top) \<and>
           optimize_font_size P font bottom_text (trunc A (truediv A H 5))
             (trunc A (truediv A H 12)) (W - 20) = Inr (bottom_font_size, bottom) \<and>
           truetype P font top_font_size = Inr top_font \<and>
           truetype P font bottom_font_size = Inr bottom_font \<and>
           top_position =
             (Floating (fsub A (truediv A W 2)
                          (truediv A (fst (multiline_textsize P top top_font)) 2)),
              Integer 0) \<and>
           bottom_position =
             (Floating (fsub A (truediv A W 2)
                          (truediv A (fst (multiline_textsize P bottom bottom_font)) 2)),
              Floating (fsub A (float_of_int A H)
                          (fmul A (float_of_int A (snd (multiline_textsize P bottom bottom_font)))
                             (truediv A 7 6)))) \<and>
           drawn =
             draw_outlined_text A
               (draw_outlined_text A [] top_position top top_font top_font_size)
               bottom_position bottom bottom_font bottom_font_size \<and>
           filter (\<lambda>c. draw_fill c = (255, 255, 255)) drawn =
             [MultilineText top_position top (255, 255, 255) top_font ''center'',
              MultilineText bottom_position bottom (255, 255, 255) bottom_font ''center'']"
  using assms(1) unfolding generate_def Let_def W_def H_def
  by (auto split: sum.splits if_splits simp: filter_white_draw_outlined_text)

text \<open>
  The theorem in exact arithmetic, at the stand-in library and the captions \<open>A\<close> and \<open>B\<close> on
  the picture of 400 by 400 pixels: both captions get the size 80, where their text block
  is 40 wide and 80 high, so the top caption is at \<open>(400 / 2 - 40 / 2, 0) = (180, 0)\<close> and the
  bottom caption at \<open>(180, 400 - 80 * (7 / 6)) = (180, 920 / 3)\<close>.
\<close>

theorem generate_positions_witness:
  "fst (generate demo_pil real_arith ''A'' ''B'' ''impact.ttf'' ''iw.jpg'' None None) =
     Inr \<lparr>img_mode = ''RGB'', img_format = ''JPEG'', img_size = (400, 400)\<rparr> \<and>
   filter (\<lambda>c. draw_fill c = (255, 255, 255))
     (snd (generate demo_pil real_arith ''A'' ''B'' ''impact.ttf'' ''iw.jpg'' None None)) =
     [MultilineText (Floating 180, Integer 0) ''A'' (255, 255, 255) (''impact.ttf'', 80)
        ''center'',
      MultilineText (Floating 180, Floating (920 / 3)) ''B'' (255, 255, 255)
        (''impact.ttf'', 80) ''center'']"
proof -
  let ?img = "\<lparr>img_mode = ''RGB'', img_format = ''JPEG'', img_size = (400, 400)\<rparr>"
  let ?g = "generate demo_pil real_arith ''A'' ''B'' ''impact.ttf'' ''iw.jpg'' None None"
  have sizes: "trunc real_arith (truediv real_arith 400 5) = 80"
    "trunc real_arith (truediv real_arith 400 12) = 33"
    by (simp_all add: real_arith_def)
  have top: "optimize_font_size demo_pil ''impact.ttf'' ''A'' 80 33 380 = Inr (80, ''A'')"
    and bottom: "optimize_font_size demo_pil ''impact.ttf'' ''B'' 80 33 380 = Inr (80, ''B'')"
    by code_simp+
  have lib: "image_open demo_pil ''iw.jpg'' = Inr ?img"
    "thumbnail demo_pil (400, 400) ?img = Inr ?img"
    "truetype demo_pil ''impact.ttf'' 80 = Inr (''impact.ttf'', 80)"
    "multiline_textsize demo_pil ''A'' (''impact.ttf'', 80) = (40, 80)"
    "multiline_textsize demo_pil ''B'' (''impact.ttf'', 80) = (40, 80)"
    by (simp_all add: demo_pil_def)
  have g: "fst ?g = Inr ?img"
    unfolding generate_def Let_def by (simp add: lib sizes top bottom)
  then have "?g = (Inr ?img, snd ?g)" by (simp add: prod_eq_iff)
  from generate_positions[OF this]
  have "filter (\<lambda>c. draw_fill c = (255, 255, 255)) (snd ?g) =
     [MultilineText (Floating 180, Integer 0) ''A'' (255, 255, 255) (''impact.ttf'', 80)
        ''center'',
      MultilineText (Floating 180, Floating (920 / 3)) ''B'' (255, 255, 255)
        (''impact.ttf'', 80) ''center'']"
    apply (elim exE conjE)
    apply (clarsimp simp: lib sizes top bottom)
    apply (simp add: lib real_arith_def)
    done
  with g show ?thesis by simp
qed

subsection \<open>The path of an image and its digest\<close>

lemma fold_update: "fold (\<lambda>v sha. sha @ f v) vs sha = sha @ concat (map f vs)"
  by (induction vs arbitrary: sha) simp_all

lemma hash_input_concat: "hash_input H vs = concat (map (contribution H) vs)"
  unfolding hash_input_def by (simp add: fold_update)





text \<open>
  Claim C8.  The claim says that two tuples of overrides that differ in one field have
  different digests.  A false value contributes the same bytes as a missing one: with the
  style \<open>a\<close>, a width of \<open>None\<close> and a width of 0 give one digest, whatever \<open>hashlib\<close>
  computes.
\<close>

theorem hash_same_for_none_and_zero:
  "NoneV \<noteq> IntV 0 \<and>
   (\<forall>H. hash H [StrV ''a'', NoneV, NoneV, NoneV] = hash H [StrV ''a'', NoneV, IntV 0, NoneV])"
  by (simp add: hash_def hash_input_def contribution_def por_def)

text \<open>
  Python's decimal numerals: the numeral of an int is never empty, and two different ints
  have different numerals.  \<open>undigits\<close> reads a numeral back.
\<close>

lemma digits_not_empty: "digits n \<noteq> []"
  by (subst digits.simps) simp

lemma undigits_snoc: "undigits (cs @ [c]) = 10 * undigits cs + (of_char c - 48)"
  by (simp add: undigits_def)

lemma of_char_digit: "d < 10 \<Longrightarrow> of_char (char_of (48 + d :: nat)) = (48 + d :: nat)"
  by (simp add: of_char_of)

lemma undigits_digits: "undigits (digits n) = n"
proof (induction n rule: digits.induct)
  case (1 n)
  show ?case
  proof (cases "n < 10")
    case True
    then show ?thesis
      by (subst digits.simps) (simp add: undigits_def of_char_digit)
  next
    case False
    with "1.IH" have "undigits (digits (n div 10)) = n div 10" by simp
    moreover have "n mod 10 < 10" by simp
    ultimately show ?thesis using False
      by (subst digits.simps) (simp add: undigits_snoc of_char_digit)
  qed
qed

lemma digits_inj: "digits m = digits n \<Longrightarrow> m = n"
  by (metis undigits_digits)

lemma digits_no_minus: "CHR ''-'' \<notin> set (digits n)"
proof (induction n rule: digits.induct)
  case (1 n)
  have digit: "char_of (48 + d :: nat) \<noteq> CHR ''-''" if "d < 10" for d
  proof
    assume "char_of (48 + d) = CHR ''-''"
    then have "(of_char (char_of (48 + d)) :: nat) = of_char CHR ''-''" by simp
    with that show False by (simp add: of_char_digit)
  qed
  show ?case
  proof (cases "n < 10")
    case True
    then show ?thesis by (subst digits.simps) (simp add: digit[THEN not_sym])
  next
    case False
    moreover have "n mod 10 < 10" by simp
    ultimately show ?thesis using "1.IH"
      by (subst digits.simps) (simp add: digit[THEN not_sym])
  qed
qed

lemma str_int_not_empty: "str_int i \<noteq> []"
  by (simp add: str_int_def digits_not_empty)

lemma str_int_inj: "str_int i = str_int j \<Longrightarrow> i = j"
proof -
  assume eq: "str_int i = str_int j"
  have hd_nonneg: "hd (digits n) \<noteq> CHR ''-''" for n
    using digits_no_minus[of n] digits_not_empty[of n] by (cases "digits n") auto
  show "i = j"
  proof (cases "i < 0")
    case True
    show ?thesis
    proof (cases "j < 0")
      case True
      with \<open>i < 0\<close> eq have "digits (nat (- i)) = digits (nat (- j))" by (simp add: str_int_def)
      then have "nat (- i) = nat (- j)" by (rule digits_inj)
      with True \<open>i < 0\<close> show ?thesis by simp
    next
      case False
      with \<open>i < 0\<close> eq have "CHR ''-'' # digits (nat (- i)) = digits (nat j)"
        by (simp add: str_int_def)
      then have "hd (digits (nat j)) = CHR ''-''" by (metis list.sel(1))
      with hd_nonneg show ?thesis by simp
    qed
  next
    case False
    show ?thesis
    proof (cases "j < 0")
      case True
      with \<open>\<not> i < 0\<close> eq have "digits (nat i) = CHR ''-'' # digits (nat (- j))"
        by (simp add: str_int_def)
      then have "hd (digits (nat i)) = CHR ''-''" by (metis list.sel(1))
      with hd_nonneg show ?thesis by simp
    next
      case False
      with \<open>\<not> i < 0\<close> eq have "digits (nat i) = digits (nat j)" by (simp add: str_int_def)
      then have "nat i = nat j" by (rule digits_inj)
      with False \<open>\<not> i < 0\<close> show ?thesis by simp
    qed
  qed
qed

text \<open>
  Which values contribute different bytes.  Two different values of the style, or of the
  width or the height, have different strings \<open>str(value or "")\<close> unless both are false:
  \<open>None\<close> or empty for the style, \<open>None\<close> or 0 for the width and the height.  The string of
  a font is that of the font object, and empty for \<open>None\<close> and for a false object.
\<close>

lemma str_or_differs_style:
  assumes "s \<noteq> s'" and "\<not> (s \<in> {None, Some []} \<and> s' \<in> {None, Some []})"
  shows "str (por (attr StrV s) (StrV '''')) \<noteq> str (por (attr StrV s') (StrV ''''))"
  using assms by (cases s; cases s') (auto simp: por_def)

lemma str_or_differs_int:
  assumes "w \<noteq> w'" and "\<not> (w \<in> {None, Some 0} \<and> w' \<in> {None, Some 0})"
  shows "str (por (attr IntV w) (StrV '''')) \<noteq> str (por (attr IntV w') (StrV ''''))"
  using assms
  by (cases w; cases w')
     (auto simp: por_def str_int_not_empty str_int_not_empty[THEN not_sym] dest: str_int_inj)

lemma str_or_font:
  "str (por (attr FontV f) (StrV [])) =
     (case f of None \<Rightarrow> [] | Some fo \<Rightarrow> if font_bool fo then font_str fo else [])"
  by (cases f) (simp_all add: por_def)

lemma contribution_differs:
  assumes "inj (encode_utf8 H)"
    and "str (por a (StrV '''')) \<noteq> str (por b (StrV ''''))"
  shows "contribution H a \<noteq> contribution H b"
  using assms unfolding contribution_def by (simp add: inj_eq)

lemma hash_input_four:
  "hash_input H [a, b, c, d] =
     contribution H a @ contribution H b @ contribution H c @ contribution H d"
  by (simp add: hash_input_concat)

text \<open>
  What holds instead, for two tuples of overrides that agree on three fields and differ
  in the fourth.  If the two values of that field are not both false (\<open>None\<close>, the empty
  string and 0 all contribute the empty string), and, when it is the font, the strings of
  the two font objects differ (\<open>font_string\<close>: the string \<open>str(font)\<close>, taken as empty for
  \<open>None\<close> and for a font object that is false), and the UTF-8 encoding is injective, then
  the bytes digested differ; the digests differ unless MD5 maps these two byte strings to
  one digest.
\<close>

theorem hash_changes:
  fixes s s' :: "string option" and f f' :: "font option" and w w' h h' :: "int option"
  defines "vs \<equiv> [attr StrV s, attr FontV f, attr IntV w, attr IntV h]"
    and "ws \<equiv> [attr StrV s', attr FontV f', attr IntV w', attr IntV h']"
  defines "font_string \<equiv> \<lambda>f. (case f of None \<Rightarrow> []
                                 | Some fo \<Rightarrow> if font_bool fo then font_str fo else [])"
  assumes one: "(s \<noteq> s' \<and> f = f' \<and> w = w' \<and> h = h') \<or> (s = s' \<and> f \<noteq> f' \<and> w = w' \<and> h = h') \<or>
                (s = s' \<and> f = f' \<and> w \<noteq> w' \<and> h = h') \<or> (s = s' \<and> f = f' \<and> w = w' \<and> h \<noteq> h')"
    and style: "s \<noteq> s' \<longrightarrow> \<not> (s \<in> {None, Some []} \<and> s' \<in> {None, Some []})"
    and width: "w \<noteq> w' \<longrightarrow> \<not> (w \<in> {None, Some 0} \<and> w' \<in> {None, Some 0})"
    and height: "h \<noteq> h' \<longrightarrow> \<not> (h \<in> {None, Some 0} \<and> h' \<in> {None, Some 0})"
    and fonts: "f \<noteq> f' \<longrightarrow> font_string f \<noteq> font_string f'"
    and utf8: "inj (encode_utf8 H)"
  shows "hash_input H vs \<noteq> hash_input H ws \<and>
         ((md5_hexdigest H (hash_input H vs) = md5_hexdigest H (hash_input H ws)
             \<longrightarrow> hash_input H vs = hash_input H ws)
          \<longrightarrow> hash H vs \<noteq> hash H ws)"
proof -
  have differ: "hash_input H vs \<noteq> hash_input H ws"
    using one
  proof (elim disjE conjE)
    assume c: "s \<noteq> s'" "f = f'" "w = w'" "h = h'"
    with style have "contribution H (attr StrV s) \<noteq> contribution H (attr StrV s')"
      by (intro contribution_differs[OF utf8] str_or_differs_style) simp_all
    with c show ?thesis unfolding vs_def ws_def hash_input_four by simp
  next
    assume c: "s = s'" "f \<noteq> f'" "w = w'" "h = h'"
    with fonts have "contribution H (attr FontV f) \<noteq> contribution H (attr FontV f')"
      unfolding font_string_def by (intro contribution_differs[OF utf8]) (simp add: str_or_font)
    with c show ?thesis unfolding vs_def ws_def hash_input_four by simp
  next
    assume c: "s = s'" "f = f'" "w \<noteq> w'" "h = h'"
    with width have "contribution H (attr IntV w) \<noteq> contribution H (attr IntV w')"
      by (intro contribution_differs[OF utf8] str_or_differs_int) simp_all
    with c show ?thesis unfolding vs_def ws_def hash_input_four by simp
  next
    assume c: "s = s'" "f = f'" "w = w'" "h \<noteq> h'"
    with height have "contribution H (attr IntV h) \<noteq> contribution H (attr IntV h')"
      by (intro contribution_differs[OF utf8] str_or_differs_int) simp_all
    with c show ?thesis unfolding vs_def ws_def hash_input_four by simp
  qed
  then show ?thesis unfolding hash_def by blast
qed

text \<open>
  The theorem at the stand-in \<open>hashlib\<close>, whose encoding is the identity and whose digests
  never collide: a width of 120 against 121, and a height of \<open>None\<close> against 5.
\<close>

theorem hash_changes_witness:
  "hash demo_hashlib [StrV ''a'', NoneV, IntV 120, NoneV] \<noteq>
   hash demo_hashlib [StrV ''a'', NoneV, IntV 121, NoneV] \<and>
   hash demo_hashlib [NoneV, NoneV, NoneV, NoneV] \<noteq>
   hash demo_hashlib [NoneV, NoneV, NoneV, IntV 5]"
proof -
  have utf8: "inj (encode_utf8 demo_hashlib)" by (simp add: demo_hashlib_def inj_def)
  have md5: "md5_hexdigest demo_hashlib x = md5_hexdigest demo_hashlib y \<longrightarrow> x = y" for x y
    by (simp add: demo_hashlib_def)
  note a = hash_changes[of "Some ''a''" "Some ''a''" None None "Some 120" "Some 121" None None
      demo_hashlib]
  note b = hash_changes[of None None None None None None None "Some 5" demo_hashlib]
  have "hash demo_hashlib [StrV ''a'', NoneV, IntV 120, NoneV] \<noteq>
        hash demo_hashlib [StrV ''a'', NoneV, IntV 121, NoneV]"
    using a utf8 md5 by simp
  moreover have "hash demo_hashlib [NoneV, NoneV, NoneV, NoneV] \<noteq>
        hash demo_hashlib [NoneV, NoneV, NoneV, IntV 5]"
    using b utf8 md5 by simp
  ultimately show ?thesis by simp
qed

subsection \<open>Input errors and the file system\<close>

lemma optimize_font_size_load_error:
  "truetype P font min_font_size = Inl e
     \<Longrightarrow> optimize_font_size P font text max_font_size min_font_size max_text_len = Inl e"
  unfolding optimize_font_size_def by simp







end
